theory Spec2Isabelle
  imports Main "HOL-Library.AList"
begin

unbundle bit_operations_syntax

section \<open>myougiden: a dictionary lookup over an SQLite store\<close>

text \<open>
  A shallow embedding of \<^verbatim>\<open>src/myougiden.py\<close>. Every function of the module is a HOL
  function of the same name. What the module mutates (the module-level
  \<^verbatim>\<open>regexp_store\<close>, the statements sent through the cursor) is a record that each function
  takes and returns; what it raises is the left injection of a sum.

  Python strings are modelled as \<^typ>\<open>string\<close>; text outside ASCII stands as its UTF-8
  bytes, all of which are at least \<open>0x80\<close>, so concatenation and the test for the characters
  \<^verbatim>\<open>A\<close> to \<^verbatim>\<open>Z\<close> agree with the code-point view of Python.
\<close>

subsection \<open>Exceptions\<close>

text \<open>
  An exception is the name of its class with its argument: the message, or for
  \<^verbatim>\<open>UnboundLocalError\<close> the name of the variable and for \<^verbatim>\<open>re.error\<close> the pattern.
\<close>

datatype error = Raised string string

text \<open>What iterating over \<^verbatim>\<open>None\<close> raises.\<close>

definition not_iterable :: error where
  "not_iterable =
     Raised ''TypeError'' ([CHR 0x27] @ ''NoneType'' @ [CHR 0x27] @ '' object is not iterable'')"

subsection \<open>The regular-expression library and the storage engine\<close>

text \<open>
  \<^verbatim>\<open>re.U\<close> is 32 and \<^verbatim>\<open>re.I\<close> is 2; flags are Python integers joined by bitwise or.
\<close>

definition re_U :: int where
  "re_U = 32"

definition re_I :: int where
  "re_I = 2"

text \<open>A compiled pattern object: the text and the flags it was compiled with.\<close>

record compiled =
  rx_pattern :: string
  rx_flags :: int

text \<open>
  What the module takes from outside: which patterns \<^verbatim>\<open>re.compile\<close> accepts, whether a
  compiled pattern is found somewhere in a text, and the \<^verbatim>\<open>LIKE\<close> of SQLite under the
  \<^verbatim>\<open>case_sensitive_like\<close> pragma (pragma, pattern, value). They are parameters of the model.
\<close>

record engine =
  re_valid :: "string \<Rightarrow> int \<Rightarrow> bool"
  re_found :: "compiled \<Rightarrow> string \<Rightarrow> bool"
  sql_like :: "bool \<Rightarrow> string \<Rightarrow> string \<Rightarrow> bool"

definition re_compile :: "engine \<Rightarrow> string \<Rightarrow> int \<Rightarrow> error + compiled" where
  "re_compile E pattern flags =
     (if re_valid E pattern flags
      then Inr \<lparr>rx_pattern = pattern, rx_flags = flags\<rparr>
      else Inl (Raised ''re.error'' pattern))"

text \<open>
  The store read by the module: \<^verbatim>\<open>entries(ent_seq)\<close> and the three child tables
  \<^verbatim>\<open>kanjis(ent_seq, kanji)\<close>, \<^verbatim>\<open>readings(ent_seq, reading)\<close>, \<^verbatim>\<open>senses(ent_seq, sense)\<close>,
  each a list of rows in storage order.
\<close>

record database =
  tbl_entries :: "int list"
  tbl_kanjis :: "(int \<times> string) list"
  tbl_readings :: "(int \<times> string) list"
  tbl_senses :: "(int \<times> string) list"

text \<open>The two functions that \<^verbatim>\<open>opendb\<close> can register under the SQL name \<^verbatim>\<open>regexp\<close>.\<close>

datatype hook = Sensitive | Insensitive

text \<open>
  The statements the module sends:
  \<^item> \<^verbatim>\<open>PRAGMA case_sensitive_like = b;\<close>
  \<^item> \<^verbatim>\<open>SELECT column FROM table WHERE ent_seq = ?;\<close> with its parameter,
  \<^item> \<^verbatim>\<open>SELECT ent_seq FROM entries NATURAL INNER JOIN table WHERE table.column operator ?;\<close>
    with its parameter.
\<close>

datatype statement =
    Pragma_case_sensitive_like bool
  | Select_column string string int
  | Select_ent_seq string string string string

text \<open>
  The state of a run: the module-level dictionary \<^verbatim>\<open>regexp_store\<close> (keys in insertion
  order), the database behind the connection, the registered \<^verbatim>\<open>regexp\<close> function, the
  pragma, and every statement executed so far.
\<close>

type_synonym store = "(string \<times> compiled) list"

record state =
  regexp_store :: store
  con_database :: database
  regexp_function :: hook
  case_sensitive_like :: bool
  executed :: "statement list"

subsection \<open>\<^verbatim>\<open>get_regex\<close> and the two SQL hooks\<close>

definition get_regex :: "engine \<Rightarrow> store \<Rightarrow> string \<Rightarrow> int \<Rightarrow> (error + compiled) \<times> store" where
  "get_regex E st pattern flags =
     (case map_of st pattern of
        Some comp' \<Rightarrow> (Inr comp', st)
      | None \<Rightarrow>
          (case re_compile E pattern (re_U OR flags) of
             Inl e \<Rightarrow> (Inl e, st)
           | Inr comp' \<Rightarrow> (Inr comp', AList.update pattern comp' st)))"

definition regexp_sensitive :: "engine \<Rightarrow> store \<Rightarrow> string \<Rightarrow> string \<Rightarrow> (error + bool) \<times> store" where
  "regexp_sensitive E st pattern field =
     (case get_regex E st pattern 0 of
        (Inl e, st') \<Rightarrow> (Inl e, st')
      | (Inr reg, st') \<Rightarrow> (Inr (re_found E reg field), st'))"

definition regexp_insensitive :: "engine \<Rightarrow> store \<Rightarrow> string \<Rightarrow> string \<Rightarrow> (error + bool) \<times> store" where
  "regexp_insensitive E st pattern field =
     (case get_regex E st pattern re_I of
        (Inl e, st') \<Rightarrow> (Inl e, st')
      | (Inr reg, st') \<Rightarrow> (Inr (re_found E reg field), st'))"

text \<open>A run of calls of \<^verbatim>\<open>get_regex\<close>, whatever each returns or raises.\<close>

fun get_regex_calls :: "engine \<Rightarrow> store \<Rightarrow> (string \<times> int) list \<Rightarrow> store" where
  "get_regex_calls E st [] = st"
| "get_regex_calls E st ((pattern, flags) # calls) =
     get_regex_calls E (snd (get_regex E st pattern flags)) calls"

subsection \<open>\<^verbatim>\<open>opendb\<close>\<close>

text \<open>
  \<^verbatim>\<open>opendb\<close> connects to the database file, registers one of the two hooks and sets the
  pragma. The file's content and the dictionary of the process are given.
\<close>

definition opendb :: "database \<Rightarrow> store \<Rightarrow> bool \<Rightarrow> state" where
  "opendb db st case_sensitive =
     (if case_sensitive
      then \<lparr>regexp_store = st, con_database = db, regexp_function = Sensitive,
            case_sensitive_like = True, executed = [Pragma_case_sensitive_like True]\<rparr>
      else \<lparr>regexp_store = st, con_database = db, regexp_function = Insensitive,
            case_sensitive_like = False, executed = [Pragma_case_sensitive_like False]\<rparr>)"

subsection \<open>Executing statements\<close>

text \<open>
  The value of \<open>value operator pattern\<close> for one row. \<^verbatim>\<open>X REGEXP Y\<close> calls the registered
  function with \<open>Y\<close> then \<open>X\<close>; an exception inside it reaches the caller as
  \<^verbatim>\<open>sqlite3.OperationalError\<close>.
\<close>

definition sql_operator ::
  "engine \<Rightarrow> hook \<Rightarrow> bool \<Rightarrow> string \<Rightarrow> string \<Rightarrow> string \<Rightarrow> store \<Rightarrow> (error + bool) \<times> store" where
  "sql_operator E h csl operator pattern v st =
     (if operator = ''LIKE'' then (Inr (sql_like E csl pattern v), st)
      else if operator = ''REGEXP'' then
        (case (case h of Sensitive \<Rightarrow> regexp_sensitive E st pattern v
                       | Insensitive \<Rightarrow> regexp_insensitive E st pattern v) of
           (Inl e, st') \<Rightarrow>
             (Inl (Raised ''sqlite3.OperationalError'' ''user-defined function raised exception''), st')
         | (Inr b, st') \<Rightarrow> (Inr b, st'))
      else (Inl (Raised ''sqlite3.OperationalError'' ''syntax error''), st))"

text \<open>The \<^verbatim>\<open>WHERE\<close> clause over the joined rows, in order, keeping \<^verbatim>\<open>ent_seq\<close>.\<close>

fun sql_where ::
  "engine \<Rightarrow> hook \<Rightarrow> bool \<Rightarrow> string \<Rightarrow> string \<Rightarrow> (int \<times> string) list \<Rightarrow> store
     \<Rightarrow> (error + int list) \<times> store" where
  "sql_where E h csl operator pattern [] st = (Inr [], st)"
| "sql_where E h csl operator pattern ((e, v) # rows) st =
     (case sql_operator E h csl operator pattern v st of
        (Inl err, st') \<Rightarrow> (Inl err, st')
      | (Inr b, st') \<Rightarrow>
          (case sql_where E h csl operator pattern rows st' of
             (Inl err, st'') \<Rightarrow> (Inl err, st'')
           | (Inr es, st'') \<Rightarrow> (Inr (if b then e # es else es), st'')))"

text \<open>A child table by its name and the name of its text column.\<close>

definition child_table :: "database \<Rightarrow> string \<Rightarrow> string \<Rightarrow> (int \<times> string) list option" where
  "child_table db table column =
     (if table = ''kanjis'' \<and> column = ''kanji'' then Some (tbl_kanjis db)
      else if table = ''readings'' \<and> column = ''reading'' then Some (tbl_readings db)
      else if table = ''senses'' \<and> column = ''sense'' then Some (tbl_senses db)
      else None)"

text \<open>
  The natural join of \<^verbatim>\<open>entries\<close> with a child table on \<^verbatim>\<open>ent_seq\<close>. SQL leaves the order of
  the rows to the engine; the model takes the nested loop in the order of the \<^verbatim>\<open>FROM\<close>
  clause.
\<close>

definition natural_join :: "int list \<Rightarrow> (int \<times> string) list \<Rightarrow> (int \<times> string) list" where
  "natural_join ents rows = concat (map (\<lambda>e. filter (\<lambda>r. fst r = e) rows) ents)"

text \<open>
  \<^verbatim>\<open>cur.execute\<close> of the search statement followed by \<^verbatim>\<open>cur.fetchall\<close>, each row reduced to
  its only column.
\<close>

definition execute_select_ent_seq ::
  "engine \<Rightarrow> state \<Rightarrow> string \<Rightarrow> string \<Rightarrow> string \<Rightarrow> string \<Rightarrow> (error + int list) \<times> state" where
  "execute_select_ent_seq E cur table column operator param =
     (let cur1 = cur\<lparr>executed := executed cur @ [Select_ent_seq table column operator param]\<rparr>
      in case child_table (con_database cur) table column of
           None \<Rightarrow> (Inl (Raised ''sqlite3.OperationalError'' ''no such table or column''), cur1)
         | Some rows \<Rightarrow>
             (case sql_where E (regexp_function cur) (case_sensitive_like cur) operator param
                     (natural_join (tbl_entries (con_database cur)) rows) (regexp_store cur) of
                (r, st') \<Rightarrow> (r, cur1\<lparr>regexp_store := st'\<rparr>)))"

text \<open>\<^verbatim>\<open>cur.execute\<close> of a statement of \<^verbatim>\<open>fetch_entry\<close> followed by \<^verbatim>\<open>cur.fetchall\<close>.\<close>

definition execute_select_column ::
  "state \<Rightarrow> string \<Rightarrow> string \<Rightarrow> int \<Rightarrow> (error + string list) \<times> state" where
  "execute_select_column cur column table ent_seq =
     (let cur1 = cur\<lparr>executed := executed cur @ [Select_column column table ent_seq]\<rparr>
      in case child_table (con_database cur) table column of
           None \<Rightarrow> (Inl (Raised ''sqlite3.OperationalError'' ''no such table or column''), cur1)
         | Some rows \<Rightarrow> (Inr (map snd (filter (\<lambda>r. fst r = ent_seq) rows)), cur1))"

subsection \<open>\<^verbatim>\<open>format_entry_tsv\<close> and \<^verbatim>\<open>fetch_entry\<close>\<close>

text \<open>Python's \<^verbatim>\<open>sep.join(xs)\<close>.\<close>

fun join :: "string \<Rightarrow> string list \<Rightarrow> string" where
  "join sep [] = []"
| "join sep [x] = x"
| "join sep (x # y # ys) = x @ sep @ join sep (y # ys)"

text \<open>The full-width semicolon U+FF1B, in UTF-8.\<close>

definition fullwidth_semicolon :: string where
  "fullwidth_semicolon = [CHR 0xEF, CHR 0xBC, CHR 0x9B]"

definition format_entry_tsv :: "string list \<Rightarrow> string list \<Rightarrow> string list \<Rightarrow> string" where
  "format_entry_tsv kanjis readings senses =
     join fullwidth_semicolon kanjis @ [CHR 0x09] @
     join fullwidth_semicolon readings @ [CHR 0x09] @
     join '';'' senses"

definition fetch_entry ::
  "state \<Rightarrow> int \<Rightarrow> (error + string list \<times> string list \<times> string list) \<times> state" where
  "fetch_entry cur ent_seq =
     (case execute_select_column cur ''kanji'' ''kanjis'' ent_seq of
        (Inl e, cur1) \<Rightarrow> (Inl e, cur1)
      | (Inr kanjis, cur1) \<Rightarrow>
     (case execute_select_column cur1 ''reading'' ''readings'' ent_seq of
        (Inl e, cur2) \<Rightarrow> (Inl e, cur2)
      | (Inr readings, cur2) \<Rightarrow>
     (case execute_select_column cur2 ''sense'' ''senses'' ent_seq of
        (Inl e, cur3) \<Rightarrow> (Inl e, cur3)
      | (Inr senses, cur3) \<Rightarrow> (Inr (kanjis, readings, senses), cur3))))"

subsection \<open>\<^verbatim>\<open>search_by\<close>\<close>

text \<open>
  Lines 98 to 104: the chain has no final \<^verbatim>\<open>else\<close>, so for any other field the local
  \<^verbatim>\<open>table\<close> stays unbound (\<open>None\<close>).
\<close>

definition search_by_table :: "string \<Rightarrow> string option" where
  "search_by_table field =
     (if field = ''kanji'' then Some ''kanjis''
      else if field = ''reading'' then Some ''readings''
      else if field = ''sense'' then Some ''senses''
      else None)"

text \<open>Lines 105 to 108.\<close>

definition search_by_operator :: "bool \<Rightarrow> string" where
  "search_by_operator regexp = (if regexp then ''REGEXP'' else ''LIKE'')"

text \<open>Lines 110 to 119; \<^verbatim>\<open>r'\b'\<close> is a backslash followed by \<^verbatim>\<open>b\<close>.\<close>

definition word_boundary :: string where
  "word_boundary = [CHR 0x5C, CHR ''b'']"

definition search_by_query :: "string \<Rightarrow> bool \<Rightarrow> bool \<Rightarrow> bool \<Rightarrow> string" where
  "search_by_query query partial word regexp =
     (if regexp then
        (if word then word_boundary @ query @ word_boundary
         else if \<not> partial then ''^'' @ query @ ''$''
         else query)
      else
        (if word then query
         else if partial then ''%'' @ query @ ''%''
         else query))"

text \<open>
  The whole function. The arguments of \<^verbatim>\<open>cur.execute\<close> are evaluated before the call, so
  an unbound \<^verbatim>\<open>table\<close> raises \<^verbatim>\<open>UnboundLocalError\<close> and nothing is executed. The parameter
  \<^verbatim>\<open>case_sensitive\<close> is not read.
\<close>

definition search_by ::
  "engine \<Rightarrow> state \<Rightarrow> string \<Rightarrow> string \<Rightarrow> bool \<Rightarrow> bool \<Rightarrow> bool \<Rightarrow> bool
     \<Rightarrow> (error + int list) \<times> state" where
  "search_by E cur field query partial word regexp case_sensitive =
     (let table = search_by_table field;
          operator = search_by_operator regexp;
          query' = search_by_query query partial word regexp
      in case table of
           None \<Rightarrow> (Inl (Raised ''UnboundLocalError'' ''table''), cur)
         | Some table' \<Rightarrow> execute_select_ent_seq E cur table' field operator query')"

subsection \<open>\<^verbatim>\<open>guess_search\<close>\<close>

text \<open>
  A condition is a dictionary of keyword arguments for \<^verbatim>\<open>search_by\<close>; the ones the module
  builds hold all six keys.
\<close>

record args =
  arg_field :: string
  arg_case_sensitive :: bool
  arg_partial :: bool
  arg_word :: bool
  arg_regexp :: bool
  arg_query :: string

text \<open>\<^verbatim>\<open>search_by(cur, **condition)\<close>.\<close>

definition search_by_kw :: "engine \<Rightarrow> state \<Rightarrow> args \<Rightarrow> (error + int list) \<times> state" where
  "search_by_kw E cur condition =
     search_by E cur (arg_field condition) (arg_query condition) (arg_partial condition)
       (arg_word condition) (arg_regexp condition) (arg_case_sensitive condition)"

text \<open>
  The loop returns inside its body; when it ends without returning, the function falls off
  its end and its value is Python's \<^verbatim>\<open>None\<close>, here \<open>Inr None\<close>.
\<close>

fun guess_search :: "engine \<Rightarrow> state \<Rightarrow> args list \<Rightarrow> (error + int list option) \<times> state" where
  "guess_search E cur [] = (Inr None, cur)"
| "guess_search E cur (condition # conditions) =
     (case search_by_kw E cur condition of
        (Inl e, cur') \<Rightarrow> (Inl e, cur')
      | (Inr res, cur') \<Rightarrow>
          (if length res > 0 then (Inr (Some res), cur')
           else guess_search E cur' conditions))"

subsection \<open>The script\<close>

text \<open>\<^verbatim>\<open>re.search("[A-Z]", query)\<close> finds a match when some character lies between A and Z.\<close>

definition search_A_Z :: "string \<Rightarrow> bool" where
  "search_A_Z query = list_ex (\<lambda>c. 65 \<le> (of_char c :: nat) \<and> (of_char c :: nat) \<le> 90) query"

text \<open>Lines 197 to 199.\<close>

definition detect_case :: "args \<Rightarrow> args" where
  "detect_case a =
     (if \<not> arg_case_sensitive a
      then (if search_A_Z (arg_query a) then a\<lparr>arg_case_sensitive := True\<rparr> else a)
      else a)"

text \<open>Line 219: every entry is fetched, then every line is printed.\<close>

fun fetch_entries ::
  "state \<Rightarrow> int list \<Rightarrow> (error + (string list \<times> string list \<times> string list) list) \<times> state" where
  "fetch_entries cur [] = (Inr [], cur)"
| "fetch_entries cur (ent_seq # entries) =
     (case fetch_entry cur ent_seq of
        (Inl e, cur') \<Rightarrow> (Inl e, cur')
      | (Inr row, cur') \<Rightarrow>
          (case fetch_entries cur' entries of
             (Inl e, cur'') \<Rightarrow> (Inl e, cur'')
           | (Inr rows, cur'') \<Rightarrow> (Inr (row # rows), cur'')))"

definition print_entries :: "state \<Rightarrow> int list \<Rightarrow> (error + string list) \<times> state" where
  "print_entries cur entries =
     (case fetch_entries cur entries of
        (Inl e, cur') \<Rightarrow> (Inl e, cur')
      | (Inr rows, cur') \<Rightarrow>
          (Inr (map (\<lambda>(kanjis, readings, senses). format_entry_tsv kanjis readings senses) rows),
           cur'))"

text \<open>
  The script from line 197 on, given the parsed arguments: the lines printed, or the
  exception that ends the run. Iterating over \<^verbatim>\<open>None\<close> raises \<^verbatim>\<open>TypeError\<close>.
\<close>

definition main :: "engine \<Rightarrow> database \<Rightarrow> store \<Rightarrow> args \<Rightarrow> (error + string list) \<times> state" where
  "main E db st a0 =
     (let a = detect_case a0;
          cur = opendb db st (arg_case_sensitive a)
      in if arg_field a \<noteq> ''guess'' then
           (case search_by_kw E cur a of
              (Inl e, cur') \<Rightarrow> (Inl e, cur')
            | (Inr entries, cur') \<Rightarrow> print_entries cur' entries)
         else
           (case guess_search E cur
                   [a\<lparr>arg_field := ''kanji''\<rparr>, a\<lparr>arg_field := ''reading''\<rparr>,
                    a\<lparr>arg_field := ''sense''\<rparr>] of
              (Inl e, cur') \<Rightarrow> (Inl e, cur')
            | (Inr None, cur') \<Rightarrow>
                (Inl not_iterable, cur')
            | (Inr (Some entries), cur') \<Rightarrow> print_entries cur' entries))"

subsection \<open>Auxiliary notions for the statements below\<close>

text \<open>The statement that a condition with a known field sends.\<close>

definition condition_statement :: "args \<Rightarrow> statement" where
  "condition_statement condition =
     Select_ent_seq (case search_by_table (arg_field condition) of Some table \<Rightarrow> table | None \<Rightarrow> [])
       (arg_field condition) (search_by_operator (arg_regexp condition))
       (search_by_query (arg_query condition) (arg_partial condition) (arg_word condition)
          (arg_regexp condition))"

text \<open>
  The state after searching every condition of a list in order, when each search returns
  an empty list; \<open>None\<close> when one of them raises or finds something.
\<close>

fun all_empty :: "engine \<Rightarrow> state \<Rightarrow> args list \<Rightarrow> state option" where
  "all_empty E cur [] = Some cur"
| "all_empty E cur (condition # conditions) =
     (case search_by_kw E cur condition of
        (Inr [], cur') \<Rightarrow> all_empty E cur' conditions
      | _ \<Rightarrow> None)"

text \<open>Whether a result is an exception of the named class.\<close>

definition raises :: "error + 'a \<Rightarrow> string \<Rightarrow> bool" where
  "raises r cls = (case r of Inl (Raised c m) \<Rightarrow> c = cls | Inr v \<Rightarrow> False)"


subsection \<open>A small instance for the examples\<close>

text \<open>
  An engine in which every pattern compiles, a compiled pattern is found in a text when it
  is that text between \<^verbatim>\<open>^\<close> and \<^verbatim>\<open>$\<close>, and \<^verbatim>\<open>LIKE\<close> is equality; a store of three
  entries; the arguments of a run without options.
\<close>

definition toy_engine :: engine where
  "toy_engine =
     \<lparr>re_valid = (\<lambda>pattern flags. True),
      re_found = (\<lambda>reg v. rx_pattern reg = ''^'' @ v @ ''$''),
      sql_like = (\<lambda>csl pattern v. pattern = v)\<rparr>"

definition toy_database :: database where
  "toy_database =
     \<lparr>tbl_entries = [1, 5, 9],
      tbl_kanjis = [],
      tbl_readings = [(5, ''neko''), (9, ''neko'')],
      tbl_senses = [(1, ''neko'')]\<rparr>"

definition toy_args :: args where
  "toy_args =
     \<lparr>arg_field = ''guess'', arg_case_sensitive = False, arg_partial = False, arg_word = False,
      arg_regexp = False, arg_query = ''neko''\<rparr>"

text \<open>
  A store with the entry of the round trip, between rows of another entry; the texts are
  the UTF-8 bytes of the three Japanese characters of the written form and of the four
  kana of the reading.
\<close>

definition nihongo_database :: database where
  "nihongo_database =
     \<lparr>tbl_entries = [1, 1464530],
      tbl_kanjis =
        [(1464530, [CHR 0xE6, CHR 0x97, CHR 0xA5, CHR 0xE6, CHR 0x9C, CHR 0xAC, CHR 0xE8, CHR 0xAA,
                    CHR 0x9E])],
      tbl_readings =
        [(1, ''neko''),
         (1464530, [CHR 0xE3, CHR 0x81, CHR 0xAB, CHR 0xE3, CHR 0x81, CHR 0xBB, CHR 0xE3, CHR 0x82,
                    CHR 0x93, CHR 0xE3, CHR 0x81, CHR 0x94])],
      tbl_senses = [(1464530, ''Japanese language''), (1, ''cat'')]\<rparr>"

lemmas toy_simps = toy_engine_def toy_database_def toy_args_def opendb_def search_by_kw_def
  search_by_def search_by_table_def search_by_operator_def search_by_query_def
  execute_select_ent_seq_def child_table_def natural_join_def sql_operator_def
  condition_statement_def

section \<open>The pattern cache\<close>

lemma get_regex_hit:
  "map_of st pattern = Some c \<Longrightarrow> get_regex E st pattern flags = (Inr c, st)"
  by (simp add: get_regex_def)

lemma get_regex_keeps:
  "map_of st p = Some c \<Longrightarrow> map_of (snd (get_regex E st pattern flags)) p = Some c"
  by (auto simp: get_regex_def update_conv' split: option.splits sum.splits)

lemma get_regex_calls_keeps:
  "map_of st p = Some c \<Longrightarrow> map_of (get_regex_calls E st calls) p = Some c"
proof (induction calls arbitrary: st)
  case Nil
  then show ?case by simp
next
  case (Cons call calls)
  obtain pattern flags where call: "call = (pattern, flags)" by (cases call)
  from Cons.prems have "map_of (snd (get_regex E st pattern flags)) p = Some c"
    by (rule get_regex_keeps)
  then show ?case unfolding call by (simp add: Cons.IH)
qed

lemma get_regex_stores:
  "get_regex E st pattern flags = (Inr c, st') \<Longrightarrow> map_of st' pattern = Some c"
  by (auto simp: get_regex_def update_conv' split: option.splits sum.splits)

lemma re_U_OR: "(re_U OR flags) AND re_U = re_U"
  by (auto simp: bit_eq_iff bit_and_iff bit_or_iff)

lemma set_update_subset: "set (AList.update k v al) \<subseteq> insert (k, v) (set al)"
  by (induction al) auto

lemma get_regex_store_set:
  "(p, c) \<in> set (snd (get_regex E st pattern flags)) \<Longrightarrow>
     (p, c) \<in> set st \<or> (p = pattern \<and> c = \<lparr>rx_pattern = pattern, rx_flags = re_U OR flags\<rparr>)"
  using set_update_subset [of pattern "\<lparr>rx_pattern = pattern, rx_flags = re_U OR flags\<rparr>" st]
  by (auto simp: get_regex_def re_compile_def split: option.splits if_splits)

lemma get_regex_calls_store_set:
  "(p, c) \<in> set (get_regex_calls E st calls) \<Longrightarrow>
     (p, c) \<in> set st \<or>
     (\<exists>flags. (p, flags) \<in> set calls \<and> c = \<lparr>rx_pattern = p, rx_flags = re_U OR flags\<rparr>)"
proof (induction calls arbitrary: st)
  case Nil
  then show ?case by simp
next
  case (Cons call calls)
  obtain pattern flags where call: "call = (pattern, flags)" by (cases call)
  from Cons.prems have "(p, c) \<in> set (get_regex_calls E (snd (get_regex E st pattern flags)) calls)"
    by (simp add: call)
  from Cons.IH [OF this] show ?case
  proof
    assume "(p, c) \<in> set (snd (get_regex E st pattern flags))"
    from get_regex_store_set [OF this] show ?thesis by (auto simp: call)
  next
    assume "\<exists>flags. (p, flags) \<in> set calls \<and> c = \<lparr>rx_pattern = p, rx_flags = re_U OR flags\<rparr>"
    then show ?thesis by auto
  qed
qed

section \<open>Searching\<close>

lemma execute_select_ent_seq_executed:
  "executed (snd (execute_select_ent_seq E cur table column operator param)) =
     executed cur @ [Select_ent_seq table column operator param]"
  by (simp add: execute_select_ent_seq_def Let_def split: option.splits prod.splits)


lemma search_by_table_Some:
  "search_by_table field = Some table \<longleftrightarrow>
     (field = ''kanji'' \<and> table = ''kanjis'') \<or> (field = ''reading'' \<and> table = ''readings'')
     \<or> (field = ''sense'' \<and> table = ''senses'')"
  by (auto simp: search_by_table_def)

lemma search_by_table_None:
  "search_by_table field = None \<longleftrightarrow> field \<notin> {''kanji'', ''reading'', ''sense''}"
  by (simp add: search_by_table_def)

lemma search_by_known:
  "search_by_table field = Some table \<Longrightarrow>
     search_by E cur field query partial word regexp case_sensitive =
       execute_select_ent_seq E cur table field (search_by_operator regexp)
         (search_by_query query partial word regexp)"
  by (simp add: search_by_def)

lemma search_by_unknown:
  "search_by_table field = None \<Longrightarrow>
     search_by E cur field query partial word regexp case_sensitive =
       (Inl (Raised ''UnboundLocalError'' ''table''), cur)"
  by (simp add: search_by_def)


lemma search_by_returns_executed:
  assumes "search_by E cur field query partial word regexp cs = (Inr res, cur')"
  shows "\<exists>table. search_by_table field = Some table \<and>
           executed cur' = executed cur @
             [Select_ent_seq table field (search_by_operator regexp)
                (search_by_query query partial word regexp)]"
proof (cases "search_by_table field")
  case None
  with assms show ?thesis by (simp add: search_by_unknown)
next
  case (Some table)
  with assms have "execute_select_ent_seq E cur table field (search_by_operator regexp)
         (search_by_query query partial word regexp) = (Inr res, cur')"
    by (simp add: search_by_known)
  then have "executed cur' = executed cur @
             [Select_ent_seq table field (search_by_operator regexp)
                (search_by_query query partial word regexp)]"
    using execute_select_ent_seq_executed
      [of E cur table field "search_by_operator regexp" "search_by_query query partial word regexp"]
    by simp
  with Some show ?thesis by simp
qed

lemma search_by_kw_returns_executed:
  "search_by_kw E cur condition = (Inr res, cur') \<Longrightarrow>
     executed cur' = executed cur @ [condition_statement condition]"
  unfolding search_by_kw_def condition_statement_def
  by (drule search_by_returns_executed) auto

lemma all_empty_executed:
  "all_empty E cur conditions = Some cur' \<Longrightarrow>
     executed cur' = executed cur @ map condition_statement conditions"
proof (induction conditions arbitrary: cur)
  case Nil
  then show ?case by simp
next
  case (Cons condition conditions)
  obtain r cur1 where s: "search_by_kw E cur condition = (r, cur1)"
    by (cases "search_by_kw E cur condition")
  with Cons.prems have r: "r = Inr []" and rest: "all_empty E cur1 conditions = Some cur'"
    by (auto split: sum.splits list.splits)
  from s r have "executed cur1 = executed cur @ [condition_statement condition]"
    by (simp add: search_by_kw_returns_executed)
  with Cons.IH [OF rest] show ?case by simp
qed

lemma guess_search_skips:
  "all_empty E cur before = Some cur1 \<Longrightarrow>
     guess_search E cur (before @ conditions) = guess_search E cur1 conditions"
proof (induction before arbitrary: cur)
  case Nil
  then show ?case by simp
next
  case (Cons condition before)
  obtain r cur0 where s: "search_by_kw E cur condition = (r, cur0)"
    by (cases "search_by_kw E cur condition")
  with Cons.prems have r: "r = Inr []" and rest: "all_empty E cur0 before = Some cur1"
    by (auto split: sum.splits list.splits)
  from Cons.IH [OF rest] s r show ?case by simp
qed

section \<open>The connection and the script\<close>














section \<open>Fetching\<close>

lemma execute_select_column_known:
  "child_table (con_database cur) table column = Some rows \<Longrightarrow>
     execute_select_column cur column table ent_seq =
       (Inr (map snd (filter (\<lambda>r. fst r = ent_seq) rows)),
        cur\<lparr>executed := executed cur @ [Select_column column table ent_seq]\<rparr>)"
  by (simp add: execute_select_column_def)

lemma fetch_entry_rows:
  "fetch_entry cur ent_seq =
     (Inr (map snd (filter (\<lambda>r. fst r = ent_seq) (tbl_kanjis (con_database cur))),
           map snd (filter (\<lambda>r. fst r = ent_seq) (tbl_readings (con_database cur))),
           map snd (filter (\<lambda>r. fst r = ent_seq) (tbl_senses (con_database cur)))),
      cur\<lparr>executed := executed cur @
             [Select_column ''kanji'' ''kanjis'' ent_seq,
              Select_column ''reading'' ''readings'' ent_seq,
              Select_column ''sense'' ''senses'' ent_seq]\<rparr>)"
  by (simp add: fetch_entry_def execute_select_column_known child_table_def)

section \<open>Properties of the pattern cache\<close>

text \<open>
  Claim C7. Once \<^verbatim>\<open>get_regex\<close> has compiled and stored a pattern, every later call with the
  same pattern text returns that stored object, whatever flags the later call passes and
  whatever other calls were made in between: the later call finds the text among the keys,
  returns the object compiled at the first call (with the flags of the first call) and
  leaves the dictionary as it was. In the example, \<^verbatim>\<open>abc\<close> is first compiled case-sensitive
  (flags 0), and the later call with \<^verbatim>\<open>re.I\<close> returns the object whose flags are 32.
\<close>

theorem get_regex_same_object:
  assumes "get_regex E st pattern flags = (Inr c, st1)"
  shows "get_regex E (get_regex_calls E st1 calls) pattern flags' =
           (Inr c, get_regex_calls E st1 calls)"
proof -
  from assms have "map_of st1 pattern = Some c" by (rule get_regex_stores)
  then have "map_of (get_regex_calls E st1 calls) pattern = Some c"
    by (rule get_regex_calls_keeps)
  then show ?thesis by (rule get_regex_hit)
qed

theorem get_regex_same_object_witness:
  "get_regex toy_engine [] ''abc'' 0 = (Inr \<lparr>rx_pattern = ''abc'', rx_flags = 32\<rparr>, [(''abc'', \<lparr>rx_pattern = ''abc'', rx_flags = 32\<rparr>)])
   \<and> get_regex toy_engine (get_regex_calls toy_engine [(''abc'', \<lparr>rx_pattern = ''abc'', rx_flags = 32\<rparr>)] [(''x'', re_I)]) ''abc'' re_I
       = (Inr \<lparr>rx_pattern = ''abc'', rx_flags = 32\<rparr>,
          [(''abc'', \<lparr>rx_pattern = ''abc'', rx_flags = 32\<rparr>), (''x'', \<lparr>rx_pattern = ''x'', rx_flags = 34\<rparr>)])"
proof -
  have h: "get_regex toy_engine [] ''abc'' 0 =
      (Inr \<lparr>rx_pattern = ''abc'', rx_flags = 32\<rparr>, [(''abc'', \<lparr>rx_pattern = ''abc'', rx_flags = 32\<rparr>)])"
    by (simp add: get_regex_def re_compile_def toy_engine_def re_U_def)
  have r: "get_regex_calls toy_engine [(''abc'', \<lparr>rx_pattern = ''abc'', rx_flags = 32\<rparr>)] [(''x'', re_I)]
     = [(''abc'', \<lparr>rx_pattern = ''abc'', rx_flags = 32\<rparr>), (''x'', \<lparr>rx_pattern = ''x'', rx_flags = 34\<rparr>)]"
    by (simp add: get_regex_def re_compile_def toy_engine_def re_U_def re_I_def)
  from get_regex_same_object [OF h, of "[(''x'', re_I)]" re_I] h r show ?thesis by simp
qed

text \<open>
  Claim C10. Every object that \<^verbatim>\<open>get_regex\<close> stores was compiled with \<^verbatim>\<open>re.U\<close> joined to
  the flags requested by a call for that pattern text: starting from the empty dictionary,
  after any calls, each stored pair \<open>(p, c)\<close> has the bit of \<^verbatim>\<open>re.U\<close> set in the flags of
  \<open>c\<close>, and \<open>c\<close> is the pattern \<open>p\<close> compiled with \<^verbatim>\<open>re.U | flags\<close> for a call \<open>(p, flags)\<close>
  of the run. On the case-sensitive path, \<^verbatim>\<open>regexp_sensitive\<close> requests no flag and what it
  stores has exactly the flags \<^verbatim>\<open>re.U\<close>.
\<close>

theorem get_regex_unicode:
  "((p, c) \<in> set (get_regex_calls E [] calls) \<longrightarrow>
      rx_flags c AND re_U = re_U \<and>
      (\<exists>flags. (p, flags) \<in> set calls \<and> c = \<lparr>rx_pattern = p, rx_flags = re_U OR flags\<rparr>))
   \<and> ((p, c) \<in> set (snd (regexp_sensitive E [] pattern v)) \<longrightarrow>
      c = \<lparr>rx_pattern = pattern, rx_flags = re_U\<rparr>)"
proof (intro conjI impI)
  assume "(p, c) \<in> set (get_regex_calls E [] calls)"
  from get_regex_calls_store_set [OF this]
  obtain flags where f: "(p, flags) \<in> set calls" "c = \<lparr>rx_pattern = p, rx_flags = re_U OR flags\<rparr>"
    by auto
  then show "\<exists>flags. (p, flags) \<in> set calls \<and> c = \<lparr>rx_pattern = p, rx_flags = re_U OR flags\<rparr>"
    by blast
  from f show "rx_flags c AND re_U = re_U" by (simp add: re_U_OR)
next
  assume "(p, c) \<in> set (snd (regexp_sensitive E [] pattern v))"
  then have "(p, c) \<in> set (snd (get_regex E [] pattern 0))"
    by (auto simp: regexp_sensitive_def split: prod.splits sum.splits)
  from get_regex_store_set [OF this] show "c = \<lparr>rx_pattern = pattern, rx_flags = re_U\<rparr>"
    by simp
qed

theorem get_regex_unicode_witness:
  "(''abc'', \<lparr>rx_pattern = ''abc'', rx_flags = 32\<rparr>)
      \<in> set (get_regex_calls toy_engine [] [(''abc'', 0), (''abc'', re_I)])
   \<and> (''abc'', \<lparr>rx_pattern = ''abc'', rx_flags = 32\<rparr>)
      \<in> set (snd (regexp_sensitive toy_engine [] ''abc'' ''abc''))
   \<and> rx_flags \<lparr>rx_pattern = ''abc'', rx_flags = 32\<rparr> AND re_U = re_U
   \<and> (\<exists>flags. (''abc'', flags) \<in> set [(''abc'', 0), (''abc'', re_I)]
         \<and> \<lparr>rx_pattern = ''abc'', rx_flags = 32\<rparr> = \<lparr>rx_pattern = ''abc'', rx_flags = re_U OR flags\<rparr>)"
proof -
  have a: "(''abc'', \<lparr>rx_pattern = ''abc'', rx_flags = 32\<rparr>)
      \<in> set (get_regex_calls toy_engine [] [(''abc'', 0), (''abc'', re_I)])"
    by (simp add: get_regex_def re_compile_def toy_engine_def re_U_def re_I_def)
  have b: "(''abc'', \<lparr>rx_pattern = ''abc'', rx_flags = 32\<rparr>)
      \<in> set (snd (regexp_sensitive toy_engine [] ''abc'' ''abc''))"
    by (simp add: regexp_sensitive_def get_regex_def re_compile_def toy_engine_def re_U_def)
  from get_regex_unicode [of "''abc''" "\<lparr>rx_pattern = ''abc'', rx_flags = 32\<rparr>" toy_engine
      "[(''abc'', 0), (''abc'', re_I)]" "''abc''" "''abc''"] a b
  show ?thesis by blast
qed

section \<open>Properties of the guess search\<close>

text \<open>
  Claim C1. \<^verbatim>\<open>guess_search\<close> calls \<^verbatim>\<open>search_by\<close> on the conditions in the order given and
  returns the list of the first call whose list is not empty, as that call returned it.
  When the conditions \<open>before\<close> each return the empty list and the next condition returns
  \<open>res\<close>, not empty, the value is \<open>res\<close> whatever conditions come \<open>after\<close>; the state is the
  one that call left, and the statements executed are those of \<open>before\<close> and of that
  condition, in order, and no other: no later condition is evaluated. In the example the
  kanji search finds nothing, the reading search finds 5 and 9, the sense search would find
  1; the value is 5, 9 and no statement on \<^verbatim>\<open>senses\<close> is executed.
\<close>

theorem guess_search_first_nonempty:
  assumes "all_empty E cur before = Some cur1"
    and "search_by_kw E cur1 condition = (Inr res, cur2)"
    and "res \<noteq> []"
  shows "guess_search E cur (before @ condition # after) = (Inr (Some res), cur2)
         \<and> executed cur2 = executed cur @ map condition_statement (before @ [condition])"
proof -
  from assms(2,3) have "guess_search E cur1 (condition # after) = (Inr (Some res), cur2)"
    by simp
  with guess_search_skips [OF assms(1)]
  have g: "guess_search E cur (before @ condition # after) = (Inr (Some res), cur2)"
    by simp
  from assms(2) have "executed cur2 = executed cur1 @ [condition_statement condition]"
    by (rule search_by_kw_returns_executed)
  with all_empty_executed [OF assms(1)] g show ?thesis by simp
qed

theorem guess_search_first_nonempty_witness:
  "all_empty toy_engine (opendb toy_database [] False) [toy_args\<lparr>arg_field := ''kanji''\<rparr>] \<noteq> None
   \<and> guess_search toy_engine (opendb toy_database [] False)
        [toy_args\<lparr>arg_field := ''kanji''\<rparr>, toy_args\<lparr>arg_field := ''reading''\<rparr>,
         toy_args\<lparr>arg_field := ''sense''\<rparr>]
      = (Inr (Some [5, 9]),
         (opendb toy_database [] False)
           \<lparr>executed := [Pragma_case_sensitive_like False,
                          Select_ent_seq ''kanjis'' ''kanji'' ''LIKE'' ''neko'',
                          Select_ent_seq ''readings'' ''reading'' ''LIKE'' ''neko'']\<rparr>)"
proof -
  let ?cur1 = "(opendb toy_database [] False)
           \<lparr>executed := [Pragma_case_sensitive_like False,
                          Select_ent_seq ''kanjis'' ''kanji'' ''LIKE'' ''neko'']\<rparr>"
  let ?cur2 = "(opendb toy_database [] False)
           \<lparr>executed := [Pragma_case_sensitive_like False,
                          Select_ent_seq ''kanjis'' ''kanji'' ''LIKE'' ''neko'',
                          Select_ent_seq ''readings'' ''reading'' ''LIKE'' ''neko'']\<rparr>"
  have a: "all_empty toy_engine (opendb toy_database [] False) [toy_args\<lparr>arg_field := ''kanji''\<rparr>]
             = Some ?cur1"
    by (simp add: toy_simps)
  have b: "search_by_kw toy_engine ?cur1 (toy_args\<lparr>arg_field := ''reading''\<rparr>) = (Inr [5, 9], ?cur2)"
    by (simp add: toy_simps)
  have c: "[5, 9] \<noteq> ([] :: int list)" by simp
  from guess_search_first_nonempty [OF a b c, of "[toy_args\<lparr>arg_field := ''sense''\<rparr>]"] a
  show ?thesis by simp
qed

text \<open>
  Claim C2. When every search of the list returns the empty list, \<^verbatim>\<open>guess_search\<close> leaves
  its loop without a \<^verbatim>\<open>return\<close>: its value is Python's \<^verbatim>\<open>None\<close>, not an empty list. This
  holds for every list of conditions, the empty one included. In the example nothing in the
  store matches \<^verbatim>\<open>inu\<close>: the three searches run, the value is \<^verbatim>\<open>None\<close>, and the script,
  which iterates over that value, ends with \<^verbatim>\<open>TypeError\<close>, whereas the same query with the
  field given goes through \<^verbatim>\<open>search_by\<close> alone and prints nothing.
\<close>

theorem guess_search_nothing_found:
  "all_empty E cur conditions = Some cur' \<Longrightarrow> guess_search E cur conditions = (Inr None, cur')"
  using guess_search_skips [of E cur conditions cur' "[]"] by simp

theorem guess_search_nothing_found_witness:
  "all_empty toy_engine (opendb toy_database [] False)
     [toy_args\<lparr>arg_query := ''inu'', arg_field := ''kanji''\<rparr>,
      toy_args\<lparr>arg_query := ''inu'', arg_field := ''reading''\<rparr>,
      toy_args\<lparr>arg_query := ''inu'', arg_field := ''sense''\<rparr>] \<noteq> None
   \<and> fst (guess_search toy_engine (opendb toy_database [] False)
     [toy_args\<lparr>arg_query := ''inu'', arg_field := ''kanji''\<rparr>,
      toy_args\<lparr>arg_query := ''inu'', arg_field := ''reading''\<rparr>,
      toy_args\<lparr>arg_query := ''inu'', arg_field := ''sense''\<rparr>]) = Inr None
   \<and> fst (guess_search toy_engine (opendb toy_database [] False) []) = Inr None
   \<and> fst (main toy_engine toy_database [] (toy_args\<lparr>arg_query := ''inu''\<rparr>)) =
       Inl not_iterable
   \<and> fst (main toy_engine toy_database [] (toy_args\<lparr>arg_query := ''inu'', arg_field := ''sense''\<rparr>)) =
       Inr []"
proof -
  let ?cur = "opendb toy_database [] False"
  let ?conds = "[toy_args\<lparr>arg_query := ''inu'', arg_field := ''kanji''\<rparr>,
      toy_args\<lparr>arg_query := ''inu'', arg_field := ''reading''\<rparr>,
      toy_args\<lparr>arg_query := ''inu'', arg_field := ''sense''\<rparr>]"
  have a: "all_empty toy_engine ?cur ?conds =
      Some (?cur\<lparr>executed := [Pragma_case_sensitive_like False,
                          Select_ent_seq ''kanjis'' ''kanji'' ''LIKE'' ''inu'',
                          Select_ent_seq ''readings'' ''reading'' ''LIKE'' ''inu'',
                          Select_ent_seq ''senses'' ''sense'' ''LIKE'' ''inu'']\<rparr>)"
    by (simp add: toy_simps)
  have b: "all_empty toy_engine ?cur [] = Some ?cur" by simp
  have m: "fst (main toy_engine toy_database [] (toy_args\<lparr>arg_query := ''inu''\<rparr>)) =
       Inl not_iterable
     \<and> fst (main toy_engine toy_database [] (toy_args\<lparr>arg_query := ''inu'', arg_field := ''sense''\<rparr>)) =
       Inr []"
    by (simp add: main_def detect_case_def search_A_Z_def print_entries_def toy_simps)
  from guess_search_nothing_found [OF a] guess_search_nothing_found [OF b] a m
  show ?thesis by simp
qed

section \<open>Properties of the field search\<close>

text \<open>
  Claim C3, as stated: a field outside kanji, reading and sense makes \<^verbatim>\<open>search_by\<close> raise an
  error named UnknownField. For the field \<^verbatim>\<open>foo\<close> the exception is \<^verbatim>\<open>UnboundLocalError\<close>, for
  the local \<^verbatim>\<open>table\<close>, and not an exception of the class UnknownField.
\<close>

theorem search_by_unknown_field_counterexample:
  "fst (search_by toy_engine (opendb toy_database [] False) ''foo'' ''neko'' False False False False)
     = Inl (Raised ''UnboundLocalError'' ''table'')
   \<and> \<not> raises (fst (search_by toy_engine (opendb toy_database [] False) ''foo'' ''neko''
                        False False False False)) ''UnknownField''"
  by (simp add: search_by_def search_by_table_def raises_def)

text \<open>
  Claim C3, amended: for every field outside kanji, reading and sense, \<^verbatim>\<open>search_by\<close> raises
  \<^verbatim>\<open>UnboundLocalError\<close> for the local \<^verbatim>\<open>table\<close>, whatever the query and the options, and the
  state is the one it was called in: no statement is executed, so no row is matched and no
  list is returned.
\<close>

theorem search_by_unknown_field:
  assumes "field \<notin> {''kanji'', ''reading'', ''sense''}"
  shows "search_by E cur field query partial word regexp case_sensitive =
           (Inl (Raised ''UnboundLocalError'' ''table''), cur)"
  using assms by (simp add: search_by_unknown search_by_table_None)

theorem search_by_unknown_field_witness:
  "''foo'' \<notin> {''kanji'', ''reading'', ''sense''}
   \<and> search_by toy_engine (opendb toy_database [] False) ''foo'' ''neko'' False False False False =
       (Inl (Raised ''UnboundLocalError'' ''table''), opendb toy_database [] False)"
proof -
  have h: "''foo'' \<notin> {''kanji'', ''reading'', ''sense''}" by simp
  from search_by_unknown_field [OF h] h show ?thesis by blast
qed

text \<open>
  Claim C4. With \<^verbatim>\<open>partial\<close> false, \<^verbatim>\<open>regexp\<close> true and \<^verbatim>\<open>word\<close> false, the operator is
  \<^verbatim>\<open>REGEXP\<close> and the query built from \<open>query\<close> is \<^verbatim>\<open>^\<close>, \<open>query\<close>, \<^verbatim>\<open>$\<close>, for every field
  and every query; for each of the three fields with a table, the statement that
  \<^verbatim>\<open>search_by\<close> executes carries that operator and that query.
\<close>

theorem search_by_regexp_full_string:
  "search_by_operator True = ''REGEXP''
   \<and> search_by_query query False False True = ''^'' @ query @ ''$''
   \<and> (search_by_table field = Some table \<longrightarrow>
        executed (snd (search_by E cur field query False False True case_sensitive)) =
          executed cur @ [Select_ent_seq table field ''REGEXP'' (''^'' @ query @ ''$'')])"
  by (simp add: search_by_known execute_select_ent_seq_executed search_by_operator_def
        search_by_query_def)

theorem search_by_regexp_full_string_witness:
  "search_by_table ''reading'' = Some ''readings''
   \<and> executed (snd (search_by toy_engine (opendb toy_database [] False) ''reading'' ''neko''
                      False False True False)) =
       [Pragma_case_sensitive_like False, Select_ent_seq ''readings'' ''reading'' ''REGEXP'' ''^neko$'']"
proof -
  have h: "search_by_table ''reading'' = Some ''readings''" by (simp add: search_by_table_def)
  from search_by_regexp_full_string [of "''neko''" "''reading''" "''readings''" toy_engine
      "opendb toy_database [] False" False] h
  show ?thesis by (simp add: opendb_def)
qed

text \<open>
  Claim C5. With \<^verbatim>\<open>regexp\<close> and \<^verbatim>\<open>word\<close> true, the query built from \<open>query\<close> is \<open>query\<close>
  between two word-boundary anchors (a backslash and \<^verbatim>\<open>b\<close> on each side), whatever
  \<^verbatim>\<open>partial\<close> is, and the statement that \<^verbatim>\<open>search_by\<close> executes carries it with the operator
  \<^verbatim>\<open>REGEXP\<close>.
\<close>

theorem search_by_regexp_word:
  "search_by_operator True = ''REGEXP''
   \<and> search_by_query query partial True True = [CHR 0x5C, CHR ''b''] @ query @ [CHR 0x5C, CHR ''b'']
   \<and> (search_by_table field = Some table \<longrightarrow>
        executed (snd (search_by E cur field query partial True True case_sensitive)) =
          executed cur @
            [Select_ent_seq table field ''REGEXP''
               ([CHR 0x5C, CHR ''b''] @ query @ [CHR 0x5C, CHR ''b''])])"
  by (simp add: search_by_known execute_select_ent_seq_executed search_by_operator_def
        search_by_query_def word_boundary_def)

theorem search_by_regexp_word_witness:
  "search_by_table ''sense'' = Some ''senses''
   \<and> executed (snd (search_by toy_engine (opendb toy_database [] False) ''sense'' ''neko''
                      True True True False)) =
       [Pragma_case_sensitive_like False,
        Select_ent_seq ''senses'' ''sense'' ''REGEXP''
          [CHR 0x5C, CHR ''b'', CHR ''n'', CHR ''e'', CHR ''k'', CHR ''o'', CHR 0x5C, CHR ''b'']]"
proof -
  have h: "search_by_table ''sense'' = Some ''senses''" by (simp add: search_by_table_def)
  from search_by_regexp_word [of "''neko''" True "''sense''" "''senses''" toy_engine
      "opendb toy_database [] False" False] h
  show ?thesis by (simp add: opendb_def)
qed

text \<open>
  Claim C6, as stated: without \<^verbatim>\<open>regexp\<close>, \<^verbatim>\<open>partial\<close> wraps the query in \<^verbatim>\<open>%\<close> and \<^verbatim>\<open>word\<close>
  has no effect. With \<^verbatim>\<open>partial\<close> and \<^verbatim>\<open>word\<close> both true the query \<^verbatim>\<open>neko\<close> is left as it
  is: it is not wrapped, and it differs from the query built with \<^verbatim>\<open>word\<close> false.
\<close>

theorem search_by_like_word_counterexample:
  "search_by_query ''neko'' True True False = ''neko''
   \<and> search_by_query ''neko'' True True False \<noteq> ''%'' @ ''neko'' @ ''%''
   \<and> search_by_query ''neko'' True True False \<noteq> search_by_query ''neko'' True False False"
  by (simp add: search_by_query_def)

text \<open>
  Claim C6, amended: without \<^verbatim>\<open>regexp\<close> the operator is \<^verbatim>\<open>LIKE\<close>; when \<^verbatim>\<open>word\<close> is true the
  query is left unchanged, also when \<^verbatim>\<open>partial\<close> is true; when \<^verbatim>\<open>word\<close> is false and
  \<^verbatim>\<open>partial\<close> is true the query is wrapped in \<^verbatim>\<open>%\<close> on both sides; otherwise it is
  unchanged. The statement that \<^verbatim>\<open>search_by\<close> executes carries that operator and query.
\<close>

theorem search_by_like:
  "search_by_operator False = ''LIKE''
   \<and> search_by_query query partial word False =
       (if word then query else if partial then ''%'' @ query @ ''%'' else query)
   \<and> (search_by_table field = Some table \<longrightarrow>
        executed (snd (search_by E cur field query partial word False case_sensitive)) =
          executed cur @
            [Select_ent_seq table field ''LIKE''
               (if word then query else if partial then ''%'' @ query @ ''%'' else query)])"
  by (simp add: search_by_known execute_select_ent_seq_executed search_by_operator_def
        search_by_query_def)

theorem search_by_like_witness:
  "search_by_table ''kanji'' = Some ''kanjis''
   \<and> executed (snd (search_by toy_engine (opendb toy_database [] False) ''kanji'' ''neko''
                      True False False False)) =
       [Pragma_case_sensitive_like False, Select_ent_seq ''kanjis'' ''kanji'' ''LIKE'' ''%neko%'']
   \<and> executed (snd (search_by toy_engine (opendb toy_database [] False) ''kanji'' ''neko''
                      True True False False)) =
       [Pragma_case_sensitive_like False, Select_ent_seq ''kanjis'' ''kanji'' ''LIKE'' ''neko'']"
proof -
  have h: "search_by_table ''kanji'' = Some ''kanjis''" by (simp add: search_by_table_def)
  from search_by_like [of "''neko''" True False "''kanji''" "''kanjis''" toy_engine
      "opendb toy_database [] False" False]
    search_by_like [of "''neko''" True True "''kanji''" "''kanjis''" toy_engine
      "opendb toy_database [] False" False] h
  show ?thesis by (simp add: opendb_def)
qed

section \<open>Properties of the script and of fetching\<close>



text \<open>
  Claim C9. For every entry id, when the rows of that id are one written form, one reading
  and one gloss, \<^verbatim>\<open>fetch_entry\<close> returns exactly these three lists, each of one element,
  whatever rows other entries have, after one statement on each child table. The example
  is the entry with the written form, the reading and the gloss of the claim.
\<close>

theorem fetch_entry_round_trip:
  assumes "filter (\<lambda>r. fst r = ent_seq) (tbl_kanjis (con_database cur)) = [(ent_seq, kanji)]"
    and "filter (\<lambda>r. fst r = ent_seq) (tbl_readings (con_database cur)) = [(ent_seq, reading)]"
    and "filter (\<lambda>r. fst r = ent_seq) (tbl_senses (con_database cur)) = [(ent_seq, sense)]"
  shows "fetch_entry cur ent_seq =
           (Inr ([kanji], [reading], [sense]),
            cur\<lparr>executed := executed cur @
                   [Select_column ''kanji'' ''kanjis'' ent_seq,
                    Select_column ''reading'' ''readings'' ent_seq,
                    Select_column ''sense'' ''senses'' ent_seq]\<rparr>)"
  using assms by (simp add: fetch_entry_rows)

theorem fetch_entry_round_trip_witness:
  "filter (\<lambda>r. fst r = 1464530) (tbl_kanjis (con_database (opendb nihongo_database [] False))) =
     [(1464530, [CHR 0xE6, CHR 0x97, CHR 0xA5, CHR 0xE6, CHR 0x9C, CHR 0xAC, CHR 0xE8, CHR 0xAA,
                 CHR 0x9E])]
   \<and> fst (fetch_entry (opendb nihongo_database [] False) 1464530) =
     Inr ([[CHR 0xE6, CHR 0x97, CHR 0xA5, CHR 0xE6, CHR 0x9C, CHR 0xAC, CHR 0xE8, CHR 0xAA, CHR 0x9E]],
          [[CHR 0xE3, CHR 0x81, CHR 0xAB, CHR 0xE3, CHR 0x81, CHR 0xBB, CHR 0xE3, CHR 0x82, CHR 0x93,
            CHR 0xE3, CHR 0x81, CHR 0x94]],
          [''Japanese language''])"
proof -
  let ?cur = "opendb nihongo_database [] False"
  have k: "filter (\<lambda>r. fst r = 1464530) (tbl_kanjis (con_database ?cur)) =
      [(1464530, [CHR 0xE6, CHR 0x97, CHR 0xA5, CHR 0xE6, CHR 0x9C, CHR 0xAC, CHR 0xE8, CHR 0xAA,
                  CHR 0x9E])]"
    by (simp add: opendb_def nihongo_database_def)
  have r: "filter (\<lambda>r. fst r = 1464530) (tbl_readings (con_database ?cur)) =
      [(1464530, [CHR 0xE3, CHR 0x81, CHR 0xAB, CHR 0xE3, CHR 0x81, CHR 0xBB, CHR 0xE3, CHR 0x82,
                  CHR 0x93, CHR 0xE3, CHR 0x81, CHR 0x94])]"
    by (simp add: opendb_def nihongo_database_def)
  have s: "filter (\<lambda>r. fst r = 1464530) (tbl_senses (con_database ?cur)) =
      [(1464530, ''Japanese language'')]"
    by (simp add: opendb_def nihongo_database_def)
  from fetch_entry_round_trip [OF k r s] k show ?thesis by simp
qed

end
